theory Spec2Isabelle
  imports Complex_Main
begin

section \<open>Python floats\<close>

text \<open>
  A Python float is an IEEE 754 binary64 number: a finite value, an infinity, or NaN. A
  finite float is read as the real number it denotes (the two zeros are not told apart).
  Every arithmetic operation on floats returns the exact result rounded to the nearest
  binary64 number, ties to the even mantissa.
\<close>

datatype pyfloat = Finite real | PosInf | NegInf | NaN

datatype py_error = OverflowError | ValueError

text \<open>Python's \<^verbatim>\<open>int(x)\<close> on a finite float: truncation toward zero.\<close>

definition py_int :: "real \<Rightarrow> int" where
  "py_int x = (if 0 \<le> x then \<lfloor>x\<rfloor> else \<lceil>x\<rceil>)"

text \<open>Rounding to the nearest integer, ties to the even neighbour (Python's \<^verbatim>\<open>round\<close>).\<close>

definition py_round :: "real \<Rightarrow> int" where
  "py_round x =
     (let f = \<lfloor>x\<rfloor>; d = x - real_of_int f
      in if d < 1 / 2 then f
         else if d > 1 / 2 then f + 1
         else if even f then f else f + 1)"

text \<open>
  The binary exponent of a positive number, by repeated halving or doubling from exponent
  \<open>e\<close>: the result \<open>k\<close> has \<open>2^k \<le> x < 2^(k+1)\<close>, except that the search stops at
  1024 (the number overflows) and at \<open>-1022\<close> (the smallest normal exponent, which the
  subnormal numbers share).
\<close>

function exponent_up :: "real \<Rightarrow> int \<Rightarrow> int" where
  "exponent_up x e = (if x < 2 \<or> 1024 \<le> e then e else exponent_up (x / 2) (e + 1))"
  by pat_completeness auto
termination
  by (relation "measure (\<lambda>(x, e). nat (1024 - e))") auto

function exponent_down :: "real \<Rightarrow> int \<Rightarrow> int" where
  "exponent_down x e = (if 1 \<le> x \<or> e \<le> - 1022 then e else exponent_down (2 * x) (e - 1))"
  by pat_completeness auto
termination
  by (relation "measure (\<lambda>(x, e). nat (e + 1022))") auto

declare exponent_up.simps [simp del] exponent_down.simps [simp del]

text \<open>
  The nearest number with a mantissa of 53 bits: with \<open>e\<close> the exponent of \<open>x\<close>, the
  numbers around \<open>x\<close> are the multiples of \<open>2^(e - 52)\<close>.
\<close>

definition round_binary64 :: "real \<Rightarrow> real" where
  "round_binary64 x =
     (if x = 0 then 0
      else
        let e = (if 1 \<le> \<bar>x\<bar> then exponent_up \<bar>x\<bar> 0 else exponent_down \<bar>x\<bar> 0);
            q = (if 52 \<le> e then 2 ^ nat (e - 52) else 1 / 2 ^ nat (52 - e))
        in real_of_int (py_round (x / q)) * q)"

text \<open>The float nearest to a real number; a magnitude of \<open>2^1024\<close> or more is an infinity.\<close>

definition binary64 :: "real \<Rightarrow> pyfloat" where
  "binary64 x =
     (let y = round_binary64 x
      in if 2 ^ 1024 \<le> \<bar>y\<bar> then (if y < 0 then NegInf else PosInf) else Finite y)"

text \<open>The product of two floats.\<close>

fun fl_mul :: "pyfloat \<Rightarrow> pyfloat \<Rightarrow> pyfloat" where
  "fl_mul NaN y = NaN"
| "fl_mul x NaN = NaN"
| "fl_mul (Finite a) (Finite b) = binary64 (a * b)"
| "fl_mul (Finite a) y =
     (if a = 0 then NaN else if (a < 0) = (y = NegInf) then PosInf else NegInf)"
| "fl_mul x (Finite b) =
     (if b = 0 then NaN else if (b < 0) = (x = NegInf) then PosInf else NegInf)"
| "fl_mul x y = (if (x = NegInf) = (y = NegInf) then PosInf else NegInf)"

text \<open>
  Python's \<^verbatim>\<open>int(x)\<close> on a float: an infinity raises \<^verbatim>\<open>OverflowError\<close>, NaN raises
  \<^verbatim>\<open>ValueError\<close>.
\<close>

fun int_of_float :: "pyfloat \<Rightarrow> py_error + int" where
  "int_of_float (Finite x) = Inr (py_int x)"
| "int_of_float NaN = Inl ValueError"
| "int_of_float x = Inl OverflowError"

text \<open>
  The C function \<^verbatim>\<open>fmod\<close>, which is exact, and Python's \<^verbatim>\<open>%\<close> and \<^verbatim>\<open>//\<close> on
  finite floats as the interpreter computes them from it, with the rounding of every
  operation. The divisors in the source are 3600 and 60, so no operation overflows or
  divides by zero.
\<close>

definition c_fmod :: "real \<Rightarrow> real \<Rightarrow> real" where
  "c_fmod vx wx = vx - wx * real_of_int (py_int (vx / wx))"

definition py_mod :: "real \<Rightarrow> real \<Rightarrow> real" where
  "py_mod vx wx =
     (let m = c_fmod vx wx
      in if m \<noteq> 0
         then (if (wx < 0) \<noteq> (m < 0) then round_binary64 (m + wx) else m)
         else 0)"

definition py_floordiv :: "real \<Rightarrow> real \<Rightarrow> real" where
  "py_floordiv vx wx =
     (let m = c_fmod vx wx;
          d = round_binary64 (round_binary64 (vx - m) / wx);
          d = (if m \<noteq> 0 \<and> (wx < 0) \<noteq> (m < 0) then round_binary64 (d - 1) else d)
      in if d \<noteq> 0
         then
           let floordiv = real_of_int \<lfloor>d\<rfloor>
           in if round_binary64 (d - floordiv) > 1 / 2 then round_binary64 (floordiv + 1)
              else floordiv
         else 0)"


section \<open>Video player: state and frame navigation (video\_player.py)\<close>

text \<open>
  The attributes of \<^verbatim>\<open>VideoPlayer\<close>. The capture handle of the decoding library is
  kept abstract (type \<open>'c\<close>), as is the decoded image (type \<open>'f\<close>); \<^verbatim>\<open>None\<close> is
  \<open>None\<close>. Python's unbounded integers are \<open>int\<close>. The attribute \<^verbatim>\<open>fps\<close> is the
  finite float that the library reports, read as a real number.
\<close>

record ('c, 'f) video_player =
  video_capture :: "'c option"
  video_path :: "string option"
  current_frame :: int
  total_frames :: int
  fps :: real
  frame_width :: int
  frame_height :: int
  last_valid_frame :: "'f option"
  last_read_position :: int

text \<open>\<^verbatim>\<open>VideoPlayer.__init__\<close>.\<close>

definition init_player :: "('c, 'f) video_player" where
  "init_player =
     \<lparr> video_capture = None, video_path = None, current_frame = 0, total_frames = 0,
       fps = 0, frame_width = 0, frame_height = 0, last_valid_frame = None,
       last_read_position = - 1 \<rparr>"

text \<open>
  The navigation methods mutate \<^verbatim>\<open>self.current_frame\<close>; each model returns the
  method's return value together with the updated player.
\<close>

definition next_frame :: "('c, 'f) video_player \<Rightarrow> bool \<times> ('c, 'f) video_player" where
  "next_frame p =
     (if current_frame p < total_frames p - 1
      then (True, p\<lparr>current_frame := current_frame p + 1\<rparr>)
      else (False, p))"

definition previous_frame :: "('c, 'f) video_player \<Rightarrow> bool \<times> ('c, 'f) video_player" where
  "previous_frame p =
     (if current_frame p > 0
      then (True, p\<lparr>current_frame := current_frame p - 1\<rparr>)
      else (False, p))"

definition skip_frames :: "int \<Rightarrow> ('c, 'f) video_player \<Rightarrow> int \<times> ('c, 'f) video_player" where
  "skip_frames frame_count p =
     (let new_frame = current_frame p + frame_count;
          new_frame = max 0 (min new_frame (total_frames p - 1));
          old_frame = current_frame p
      in (new_frame - old_frame, p\<lparr>current_frame := new_frame\<rparr>))"

text \<open>
  \<^verbatim>\<open>VideoPlayer.skip_time\<close>. The argument is any float. The product is the float
  product, and \<^verbatim>\<open>int\<close> raises on an infinity or NaN: then the exception is the result and
  the player is as it was.
\<close>

definition skip_time ::
  "pyfloat \<Rightarrow> ('c, 'f) video_player \<Rightarrow> (py_error + int) \<times> ('c, 'f) video_player" where
  "skip_time seconds p =
     (case int_of_float (fl_mul seconds (Finite (fps p))) of
        Inl e \<Rightarrow> (Inl e, p)
      | Inr frames_to_skip \<Rightarrow>
          (Inr (fst (skip_frames frames_to_skip p)), snd (skip_frames frames_to_skip p)))"

definition is_loaded :: "('c, 'f) video_player \<Rightarrow> bool" where
  "is_loaded p = (video_capture p \<noteq> None)"

text \<open>
  The invariant that the navigation methods are to keep: \<^verbatim>\<open>current_frame\<close> is a valid
  frame index, or 0 when the video has no frames.
\<close>

definition current_frame_in_range :: "('c, 'f) video_player \<Rightarrow> bool" where
  "current_frame_in_range p =
     (if total_frames p > 0
      then 0 \<le> current_frame p \<and> current_frame p \<le> total_frames p - 1
      else current_frame p = 0)"


section \<open>The decoding library as an interface\<close>

text \<open>
  The player talks to a capture object of the decoding library (OpenCV). The library is
  external, so its operations are parameters of the model: any behaviour of \<^verbatim>\<open>read\<close>,
  \<^verbatim>\<open>set\<close>, \<^verbatim>\<open>isOpened\<close> and \<^verbatim>\<open>get\<close> is allowed, and each takes the capture's
  state and returns the new one where the call may change it.
\<close>

datatype cap_prop =
  CAP_PROP_POS_FRAMES | CAP_PROP_FRAME_COUNT | CAP_PROP_FPS
| CAP_PROP_FRAME_WIDTH | CAP_PROP_FRAME_HEIGHT

record ('c, 'f) cv2 =
  cap_open_ffmpeg :: "string \<Rightarrow> 'c"
  cap_open_default :: "string \<Rightarrow> 'c"
  cap_isOpened :: "'c \<Rightarrow> bool"
  cap_get :: "'c \<Rightarrow> cap_prop \<Rightarrow> real"
  cap_read :: "'c \<Rightarrow> (bool \<times> 'f option) \<times> 'c"
  cap_set :: "'c \<Rightarrow> cap_prop \<Rightarrow> int \<Rightarrow> 'c"
  cap_release :: "'c \<Rightarrow> 'c"

text \<open>
  \<^verbatim>\<open>VideoPlayer.load_video\<close>. The result is the returned pair (success, error message),
  the updated player, and the capture that was released, if there was one: the released
  object is dropped by the player, so the release is visible only in this third component.
\<close>

definition load_video ::
  "('c, 'f) cv2 \<Rightarrow> string \<Rightarrow> ('c, 'f) video_player
     \<Rightarrow> (bool \<times> string option) \<times> ('c, 'f) video_player \<times> 'c option" where
  "load_video cv file_path p =
     (let released = map_option (cap_release cv) (video_capture p);
          c = cap_open_ffmpeg cv file_path;
          c = (if \<not> cap_isOpened cv c then cap_open_default cv file_path else c);
          p = p\<lparr>video_capture := Some c\<rparr>
      in if \<not> cap_isOpened cv c
         then ((False, Some ''Failed to open video file''), p, released)
         else ((True, None),
               p\<lparr>video_path := Some file_path,
                 total_frames := py_int (cap_get cv c CAP_PROP_FRAME_COUNT),
                 fps := cap_get cv c CAP_PROP_FPS,
                 frame_width := py_int (cap_get cv c CAP_PROP_FRAME_WIDTH),
                 frame_height := py_int (cap_get cv c CAP_PROP_FRAME_HEIGHT),
                 current_frame := 0,
                 last_valid_frame := None,
                 last_read_position := - 1\<rparr>,
               released))"

text \<open>\<^verbatim>\<open>VideoPlayer.release\<close>.\<close>

definition release :: "('c, 'f) cv2 \<Rightarrow> ('c, 'f) video_player \<Rightarrow> ('c, 'f) video_player \<times> 'c option" where
  "release cv p =
     (case video_capture p of
        None \<Rightarrow> (p, None)
      | Some c \<Rightarrow> (p\<lparr>video_capture := None\<rparr>, Some (cap_release cv c)))"

text \<open>
  The loop of \<^verbatim>\<open>_seek_and_read\<close>:
  \<^verbatim>\<open>for i in range(seek_back + 1): ret, frame = read(); if not ret: break\<close>.
  The first argument counts the iterations left; the loop variables \<^verbatim>\<open>ret\<close> and
  \<^verbatim>\<open>frame\<close> and the capture are threaded through.
\<close>

fun read_forward ::
  "('c, 'f) cv2 \<Rightarrow> nat \<Rightarrow> (bool \<times> 'f option) \<times> 'c \<Rightarrow> (bool \<times> 'f option) \<times> 'c" where
  "read_forward cv 0 st = st"
| "read_forward cv (Suc n) (rf, c) =
     (let (rf', c') = cap_read cv c
      in if \<not> fst rf' then (rf', c') else read_forward cv n (rf', c'))"

text \<open>
  For statements about a run of reads: the capture after \<open>i\<close> consecutive reads from
  \<open>c\<close>, and whether the next read from \<open>c\<close> reports success.
\<close>

fun after_reads :: "('c, 'f) cv2 \<Rightarrow> nat \<Rightarrow> 'c \<Rightarrow> 'c" where
  "after_reads cv 0 c = c"
| "after_reads cv (Suc i) c = after_reads cv i (snd (cap_read cv c))"

definition read_ok :: "('c, 'f) cv2 \<Rightarrow> 'c \<Rightarrow> bool" where
  "read_ok cv c = fst (fst (cap_read cv c))"

text \<open>
  \<^verbatim>\<open>VideoPlayer._seek_and_read\<close>, on the capture \<open>c\<close> of the player and its
  \<^verbatim>\<open>current_frame\<close>; it is only called with a capture present.
\<close>

definition seek_and_read :: "('c, 'f) cv2 \<Rightarrow> 'c \<Rightarrow> int \<Rightarrow> (bool \<times> 'f option) \<times> 'c" where
  "seek_and_read cv c cur =
     (let c1 = cap_set cv c CAP_PROP_POS_FRAMES cur;
          ((ret, frame), c2) = cap_read cv c1
      in if ret then ((ret, frame), c2)
         else
           let keyframe_interval = 30;
               seek_back = min cur keyframe_interval
           in if seek_back > 0
              then
                let start_frame = cur - seek_back;
                    c3 = cap_set cv c2 CAP_PROP_POS_FRAMES start_frame;
                    ((ret, frame), c4) =
                       read_forward cv (nat (seek_back + 1)) ((ret, frame), c3)
                in if ret then ((ret, frame), c4) else ((False, None), c4)
              else ((False, None), c2))"

text \<open>
  \<^verbatim>\<open>VideoPlayer.get_frame\<close>: the returned triple (success, frame, used\_cache) and the
  updated player.
\<close>

definition get_frame ::
  "('c, 'f) cv2 \<Rightarrow> ('c, 'f) video_player
     \<Rightarrow> (bool \<times> 'f option \<times> bool) \<times> ('c, 'f) video_player" where
  "get_frame cv p =
     (case video_capture p of
        None \<Rightarrow> ((False, None, False), p)
      | Some c \<Rightarrow>
          let ((ret, frame), c') =
                (if \<bar>current_frame p - last_read_position p\<bar> = 1
                 then (if current_frame p > last_read_position p
                       then cap_read cv c
                       else seek_and_read cv c (current_frame p))
                 else seek_and_read cv c (current_frame p));
              p = p\<lparr>video_capture := Some c'\<rparr>
          in if \<not> ret \<or> frame = None
             then (case last_valid_frame p of
                     Some cached \<Rightarrow> ((True, Some cached, True), p)
                   | None \<Rightarrow> ((False, None, False), p))
             else ((True, frame, False),
                   p\<lparr>last_valid_frame := frame,
                     last_read_position := current_frame p\<rparr>))"


section \<open>Timestamps (video\_player.py)\<close>

text \<open>
  \<^verbatim>\<open>VideoPlayer.get_current_timestamp\<close>: the integer is converted to a float (which
  raises \<^verbatim>\<open>OverflowError\<close> when it is too large) and divided by \<^verbatim>\<open>fps\<close>.
\<close>

definition get_current_timestamp :: "('c, 'f) video_player \<Rightarrow> py_error + pyfloat" where
  "get_current_timestamp p =
     (if fps p > 0
      then (case binary64 (real_of_int (current_frame p)) of
              Finite a \<Rightarrow> Inr (binary64 (a / fps p))
            | _ \<Rightarrow> Inl OverflowError)
      else Inr (Finite 0))"

text \<open>Decimal digits of a natural number, and zero padding on the left.\<close>

definition digit_char :: "nat \<Rightarrow> char" where
  "digit_char n = ''0123456789'' ! (n mod 10)"

fun string_of_nat :: "nat \<Rightarrow> string" where
  "string_of_nat n =
     (if n < 10 then [digit_char n]
      else string_of_nat (n div 10) @ [digit_char n])"

definition zfill :: "nat \<Rightarrow> string \<Rightarrow> string" where
  "zfill w s = replicate (w - length s) (CHR ''0'') @ s"

text \<open>
  The format specifications \<^verbatim>\<open>02d\<close> and \<^verbatim>\<open>06.3f\<close> of the f-string. The second
  prints the exact value of the float rounded to three decimals, ties to even.
\<close>

definition format_02d :: "int \<Rightarrow> string" where
  "format_02d n =
     (if n < 0 then ''-'' @ zfill 1 (string_of_nat (nat (- n)))
      else zfill 2 (string_of_nat (nat n)))"

definition format_3f :: "real \<Rightarrow> string" where
  "format_3f x =
     (let m = nat (py_round (x * 1000))
      in string_of_nat (m div 1000) @ ''.'' @ zfill 3 (string_of_nat (m mod 1000)))"

definition format_06_3f :: "real \<Rightarrow> string" where
  "format_06_3f x =
     (if x < 0 then ''-'' @ zfill 5 (format_3f (- x)) else zfill 6 (format_3f x))"

text \<open>
  \<^verbatim>\<open>timedelta(seconds=seconds).total_seconds()\<close>. The constructor splits the float into
  its integer and fractional part, multiplies the fractional part by \<open>10^6\<close> as a float,
  rounds the sum to whole microseconds (ties to even), and refuses a magnitude of more than
  999999999 days; an infinity or NaN cannot be converted to an integer.
  \<^verbatim>\<open>total_seconds\<close> divides the microseconds by \<open>10^6\<close>, which gives the nearest float.
\<close>

fun timedelta_total_seconds :: "pyfloat \<Rightarrow> py_error + real" where
  "timedelta_total_seconds (Finite seconds) =
     (let intpart = py_int seconds;
          fracpart = seconds - real_of_int intpart;
          us = (if fracpart = 0 then intpart * 1000000
                else py_round (real_of_int (intpart * 1000000)
                               + round_binary64 (fracpart * 1000000)));
          days = us div (86400 * 1000000)
      in if \<bar>days\<bar> > 999999999 then Inl OverflowError
         else Inr (round_binary64 (real_of_int us / 1000000)))"
| "timedelta_total_seconds NaN = Inl ValueError"
| "timedelta_total_seconds x = Inl OverflowError"

text \<open>\<^verbatim>\<open>VideoPlayer.format_timestamp\<close>.\<close>

definition format_timestamp :: "pyfloat \<Rightarrow> py_error + string" where
  "format_timestamp seconds =
     (case timedelta_total_seconds seconds of
        Inl e \<Rightarrow> Inl e
      | Inr ts \<Rightarrow>
          let hours = py_int (py_floordiv ts 3600);
              minutes = py_int (py_floordiv (py_mod ts 3600) 60);
              secs = py_mod ts 60
          in Inr (format_02d hours @ '':'' @ format_02d minutes @ '':'' @ format_06_3f secs))"


section \<open>Annotation manager (annotation\_manager.py)\<close>

record annotation_manager =
  start_timestamp :: "real option"
  annotation_history :: "string list"
  annotation_dir :: "string option"

definition init_manager :: annotation_manager where
  "init_manager = \<lparr> start_timestamp = None, annotation_history = [], annotation_dir = None \<rparr>"

text \<open>
  \<^verbatim>\<open>AnnotationManager.add_to_history\<close>. A string is truthy when it is not empty;
  \<^verbatim>\<open>not in\<close> compares with \<^verbatim>\<open>==\<close>.
\<close>

definition add_to_history :: "string \<Rightarrow> annotation_manager \<Rightarrow> annotation_manager" where
  "add_to_history annotation m =
     (if annotation \<noteq> [] \<and> annotation \<notin> set (annotation_history m)
      then m\<lparr>annotation_history := annotation_history m @ [annotation]\<rparr>
      else m)"


subsection \<open>POSIX path functions of the standard library\<close>

text \<open>
  \<^verbatim>\<open>save_annotation\<close> computes its paths with \<^verbatim>\<open>os.path\<close>. The functions below
  follow the POSIX implementation of the standard library (\<^verbatim>\<open>posixpath\<close>), on
  strings with separator \<^verbatim>\<open>/\<close>.
\<close>

definition sep :: char where
  "sep = CHR ''/''"

text \<open>The split of \<open>p\<close> at \<^verbatim>\<open>i = p.rfind('/') + 1\<close>: \<^verbatim>\<open>(p[:i], p[i:])\<close>.\<close>

definition rsplit_sep :: "string \<Rightarrow> string \<times> string" where
  "rsplit_sep p =
     (let tail = rev (takeWhile (\<lambda>c. c \<noteq> sep) (rev p))
      in (take (length p - length tail) p, tail))"

definition rstrip_sep :: "string \<Rightarrow> string" where
  "rstrip_sep s = rev (dropWhile (\<lambda>c. c = sep) (rev s))"

definition dirname :: "string \<Rightarrow> string" where
  "dirname p =
     (let head = fst (rsplit_sep p)
      in if head \<noteq> [] \<and> \<not> list_all (\<lambda>c. c = sep) head then rstrip_sep head else head)"

definition basename :: "string \<Rightarrow> string" where
  "basename p = snd (rsplit_sep p)"

text \<open>
  \<^verbatim>\<open>splitext\<close>: the extension starts at the last dot of the last component, unless only
  dots come before it in that component.
\<close>

definition splitext :: "string \<Rightarrow> string \<times> string" where
  "splitext p =
     (let (head, name) = rsplit_sep p;
          ext = rev (takeWhile (\<lambda>c. c \<noteq> CHR ''.'') (rev name))
      in if CHR ''.'' \<in> set name
         then
           let stem = take (length name - length ext - 1) name
           in if list_all (\<lambda>c. c = CHR ''.'') stem then (p, [])
              else (head @ stem, CHR ''.'' # ext)
         else (p, []))"

definition isabs :: "string \<Rightarrow> bool" where
  "isabs p = (case p of [] \<Rightarrow> False | c # _ \<Rightarrow> c = sep)"

text \<open>\<^verbatim>\<open>join(a, b)\<close> with two arguments.\<close>

definition path_join :: "string \<Rightarrow> string \<Rightarrow> string" where
  "path_join a b =
     (if isabs b then b
      else if a = [] \<or> last a = sep then a @ b
      else a @ [sep] @ b)"

text \<open>\<^verbatim>\<open>p.split('/')\<close> and \<^verbatim>\<open>'/'.join(comps)\<close>.\<close>

fun split_sep :: "string \<Rightarrow> string list" where
  "split_sep [] = [[]]"
| "split_sep (c # cs) =
     (if c = sep then [] # split_sep cs
      else (case split_sep cs of
              [] \<Rightarrow> [[c]]
            | w # ws \<Rightarrow> (c # w) # ws))"

fun join_sep :: "string list \<Rightarrow> string" where
  "join_sep [] = []"
| "join_sep [x] = x"
| "join_sep (x # y # zs) = x @ [sep] @ join_sep (y # zs)"

text \<open>
  The loop of \<^verbatim>\<open>normpath\<close> over the components, with the number of initial slashes
  and the list \<^verbatim>\<open>new_comps\<close> built so far.
\<close>

fun norm_comps :: "nat \<Rightarrow> string list \<Rightarrow> string list \<Rightarrow> string list" where
  "norm_comps initial_slashes new_comps [] = new_comps"
| "norm_comps initial_slashes new_comps (name # comps) =
     (if name = [] \<or> name = ''.'' then norm_comps initial_slashes new_comps comps
      else if name \<noteq> ''..'' \<or> (initial_slashes = 0 \<and> new_comps = [])
                \<or> (new_comps \<noteq> [] \<and> last new_comps = ''..'')
      then norm_comps initial_slashes (new_comps @ [name]) comps
      else if new_comps \<noteq> [] then norm_comps initial_slashes (butlast new_comps) comps
      else norm_comps initial_slashes new_comps comps)"

definition normpath :: "string \<Rightarrow> string" where
  "normpath path =
     (if path = [] then ''.''
      else
        let initial_slashes =
              (if isabs path
               then (if take 2 path = [sep, sep] \<and> take 3 path \<noteq> [sep, sep, sep]
                     then 2 else 1)
               else 0);
            comps = norm_comps initial_slashes [] (split_sep path);
            path = replicate initial_slashes sep @ join_sep comps
        in if path = [] then ''.'' else path)"

text \<open>\<^verbatim>\<open>abspath\<close>, with the current working directory as an argument.\<close>

definition abspath :: "string \<Rightarrow> string \<Rightarrow> string" where
  "abspath cwd path = normpath (if \<not> isabs path then path_join cwd path else path)"

fun commonprefix :: "'a list \<Rightarrow> 'a list \<Rightarrow> 'a list" where
  "commonprefix (x # xs) (y # ys) = (if x = y then x # commonprefix xs ys else [])"
| "commonprefix _ _ = []"

text \<open>\<^verbatim>\<open>relpath(path, start)\<close>.\<close>

definition relpath :: "string \<Rightarrow> string \<Rightarrow> string \<Rightarrow> py_error + string" where
  "relpath cwd path start =
     (if path = [] then Inl ValueError
      else
        let start_list = filter (\<lambda>x. x \<noteq> []) (split_sep (abspath cwd start));
            path_list = filter (\<lambda>x. x \<noteq> []) (split_sep (abspath cwd path));
            i = length (commonprefix start_list path_list);
            rel_list = replicate (length start_list - i) ''..'' @ drop i path_list
        in (case rel_list of
              [] \<Rightarrow> Inr ''.''
            | r # rs \<Rightarrow> Inr (foldl path_join r rs)))"

text \<open>\<^verbatim>\<open>str.startswith\<close>.\<close>

fun startswith :: "string \<Rightarrow> string \<Rightarrow> bool" where
  "startswith s [] = True"
| "startswith [] (c # cs) = False"
| "startswith (d # ds) (c # cs) = (d = c \<and> startswith ds cs)"

subsection \<open>Saving an annotation\<close>

text \<open>
  What \<^verbatim>\<open>save_annotation\<close> reads from and writes to the operating system: the home
  directory (\<^verbatim>\<open>expanduser("~")\<close>), the working directory, the content of the files,
  and, for each path, the message of the exception that opening it for appending raises,
  if it raises one.
\<close>

record os_env =
  home_dir :: string
  cwd :: string
  files :: "string \<Rightarrow> string option"
  open_error :: "string \<Rightarrow> string option"

text \<open>Opening in mode \<^verbatim>\<open>'a'\<close> and writing: an absent file is created.\<close>

definition append_file :: "string \<Rightarrow> string \<Rightarrow> os_env \<Rightarrow> os_env" where
  "append_file path line env =
     env\<lparr>files := (files env)(path :=
            Some ((case files env path of None \<Rightarrow> [] | Some old \<Rightarrow> old) @ line))\<rparr>"

text \<open>
  \<^verbatim>\<open>AnnotationManager.save_annotation\<close>: the returned triple (success, file path, error
  message) and the updated environment. The argument \<^verbatim>\<open>video_path\<close> is \<^verbatim>\<open>None\<close> or
  a string (\<open>vpath\<close> once it is known to be a string); a value is truthy when it is
  a non-empty string. An exception of \<^verbatim>\<open>relpath\<close> is raised before the \<^verbatim>\<open>try\<close>
  block and leaves the method: it is the result \<open>Inl\<close>.
\<close>

definition save_annotation ::
  "annotation_manager \<Rightarrow> string option \<Rightarrow> string \<Rightarrow> string \<Rightarrow> string \<Rightarrow> os_env
     \<Rightarrow> py_error + ((bool \<times> string option \<times> string option) \<times> os_env)" where
  "save_annotation m video_path_arg start_time_str end_time_str annotation_text env =
     (case video_path_arg of
        None \<Rightarrow> Inr ((False, None, Some ''No video loaded''), env)
      | Some vpath \<Rightarrow>
          if vpath = [] then Inr ((False, None, Some ''No video loaded''), env)
          else
            let annot_dir =
                  (case annotation_dir m of
                     None \<Rightarrow> dirname vpath
                   | Some d \<Rightarrow> if d \<noteq> [] then d else dirname vpath);
                video_name = fst (splitext (basename vpath));
                annotation_file = path_join annot_dir (video_name @ ''_annotations.txt'');
                abs_video_path = abspath (cwd env) vpath;
                video_path_str =
                  (if startswith abs_video_path (home_dir env)
                   then relpath (cwd env) abs_video_path (home_dir env)
                   else Inr abs_video_path)
            in (case video_path_str of
                  Inl e \<Rightarrow> Inl e
                | Inr video_path_str \<Rightarrow>
                    (case open_error env annotation_file of
                       Some msg \<Rightarrow> Inr ((False, None, Some msg), env)
                     | None \<Rightarrow>
                         Inr ((True, Some annotation_file, None),
                              append_file annotation_file
                                (video_path_str @ [CHR 0x09] @ start_time_str @ [CHR 0x09]
                                   @ end_time_str @ [CHR 0x09] @ annotation_text @ [CHR 0x0A])
                                env))))"


section \<open>A sample decoding backend\<close>

text \<open>
  One instance of the library interface, used to run the player on concrete videos. A
  video is a list of packets: a key frame decodes on its own, a delta frame decodes only
  when the frame before it was decoded by the preceding read, a corrupt packet never
  decodes. The capture records the calls made to it.
\<close>

datatype packet = Key nat | Delta nat | Corrupt

datatype cap_call = Read | Seek int

record capture =
  is_open :: bool
  packets :: "packet list"
  position :: int
  in_sync :: bool
  calls :: "cap_call list"

definition sample_read :: "capture \<Rightarrow> (bool \<times> nat option) \<times> capture" where
  "sample_read c0 =
     (let c = c0\<lparr>calls := calls c0 @ [Read]\<rparr>
      in if \<not> is_open c \<or> position c < 0 \<or> position c \<ge> int (length (packets c))
         then ((False, None), c\<lparr>in_sync := False\<rparr>)
         else (case packets c ! nat (position c) of
                 Key img \<Rightarrow> ((True, Some img), c\<lparr>position := position c + 1, in_sync := True\<rparr>)
               | Delta img \<Rightarrow>
                   if in_sync c then ((True, Some img), c\<lparr>position := position c + 1\<rparr>)
                   else ((False, None), c\<lparr>position := position c + 1\<rparr>)
               | Corrupt \<Rightarrow> ((False, None), c\<lparr>position := position c + 1, in_sync := False\<rparr>)))"

definition sample_set :: "capture \<Rightarrow> cap_prop \<Rightarrow> int \<Rightarrow> capture" where
  "sample_set c prop n =
     (if prop = CAP_PROP_POS_FRAMES
      then c\<lparr>position := n, in_sync := False, calls := calls c @ [Seek n]\<rparr>
      else c)"

definition sample_get :: "capture \<Rightarrow> cap_prop \<Rightarrow> real" where
  "sample_get c prop =
     (if \<not> is_open c then 0
      else (case prop of
              CAP_PROP_POS_FRAMES \<Rightarrow> real_of_int (position c)
            | CAP_PROP_FRAME_COUNT \<Rightarrow> real (length (packets c))
            | CAP_PROP_FPS \<Rightarrow> 25
            | CAP_PROP_FRAME_WIDTH \<Rightarrow> 640
            | CAP_PROP_FRAME_HEIGHT \<Rightarrow> 480))"

definition sample_open :: "(string \<times> packet list) list \<Rightarrow> string \<Rightarrow> capture" where
  "sample_open videos path =
     (case map_of videos path of
        None \<Rightarrow> \<lparr> is_open = False, packets = [], position = 0, in_sync = False, calls = [] \<rparr>
      | Some ps \<Rightarrow> \<lparr> is_open = True, packets = ps, position = 0, in_sync = False, calls = [] \<rparr>)"

text \<open>
  The backend over the videos that the preferred opener can open and those that the
  generic opener can open.
\<close>

definition sample_cv ::
  "(string \<times> packet list) list \<Rightarrow> (string \<times> packet list) list \<Rightarrow> (capture, nat) cv2" where
  "sample_cv preferred generic =
     \<lparr> cap_open_ffmpeg = sample_open preferred,
       cap_open_default = sample_open generic,
       cap_isOpened = is_open,
       cap_get = sample_get,
       cap_read = sample_read,
       cap_set = sample_set,
       cap_release = (\<lambda>c. c\<lparr>is_open := False\<rparr>) \<rparr>"


text \<open>
  Sample inputs: a backend whose preferred opener knows one video and whose generic opener
  knows another, an open capture on a video of one key frame and two delta frames, one on a
  video whose third packet is corrupt, and a player holding a capture.
\<close>

definition sample_backend :: "(capture, nat) cv2" where
  "sample_backend =
     sample_cv [(''gop.mp4'', [Key 0, Delta 1, Delta 2])] [(''old.avi'', [Key 7, Delta 8])]"

definition clip_gop :: capture where
  "clip_gop = sample_open [(''gop.mp4'', [Key 0, Delta 1, Delta 2])] ''gop.mp4''"

definition clip_corrupt :: capture where
  "clip_corrupt = sample_open [(''bad.mp4'', [Key 0, Delta 1, Corrupt])] ''bad.mp4''"

definition player_on :: "capture \<Rightarrow> (capture, nat) video_player" where
  "player_on c =
     init_player\<lparr>video_capture := Some c, total_frames := int (length (packets c)), fps := 25\<rparr>"

definition sample_env :: os_env where
  "sample_env =
     \<lparr> home_dir = ''/home/al'', cwd = ''/tmp'', files = (\<lambda>_. None), open_error = (\<lambda>_. None) \<rparr>"


section \<open>States the player can reach\<close>

text \<open>
  The scrub bar of the user interface (\<^verbatim>\<open>on_nav_scale_click\<close> and
  \<^verbatim>\<open>on_nav_scale_drag\<close> in video\_annotation\_gui.py) is the only code outside the
  player that assigns \<^verbatim>\<open>current_frame\<close>; it clamps the frame number first.
\<close>

definition seek_to :: "int \<Rightarrow> ('c, 'f) video_player \<Rightarrow> ('c, 'f) video_player" where
  "seek_to frame_num p =
     (let frame_num = max 0 (min frame_num (total_frames p - 1))
      in p\<lparr>current_frame := frame_num\<rparr>)"

text \<open>The players that a sequence of calls produces from a new player.\<close>

inductive reachable :: "('c, 'f) cv2 \<Rightarrow> ('c, 'f) video_player \<Rightarrow> bool" for cv where
  r_init: "reachable cv init_player"
| r_load: "reachable cv p \<Longrightarrow> reachable cv (fst (snd (load_video cv file_path p)))"
| r_release: "reachable cv p \<Longrightarrow> reachable cv (fst (release cv p))"
| r_get_frame: "reachable cv p \<Longrightarrow> reachable cv (snd (get_frame cv p))"
| r_next: "reachable cv p \<Longrightarrow> reachable cv (snd (next_frame p))"
| r_previous: "reachable cv p \<Longrightarrow> reachable cv (snd (previous_frame p))"
| r_skip_frames: "reachable cv p \<Longrightarrow> reachable cv (snd (skip_frames frame_count p))"
| r_skip_time: "reachable cv p \<Longrightarrow> reachable cv (snd (skip_time seconds p))"
| r_seek_to: "reachable cv p \<Longrightarrow> reachable cv (seek_to frame_num p)"

section \<open>Helper lemmas\<close>

lemmas sample_simps =
  sample_backend_def sample_cv_def sample_read_def sample_set_def sample_open_def
  sample_get_def clip_gop_def clip_corrupt_def player_on_def init_player_def

lemma forward_step_iff: "(\<bar>a - b\<bar> = 1 \<and> a > b) = (a - b = (1::int))"
  by auto

text \<open>\<^verbatim>\<open>get_frame\<close> on a player with a capture, in terms of the decode it performs.\<close>

lemma get_frame_loaded:
  assumes "video_capture p = Some c"
    and "(if current_frame p - last_read_position p = 1
          then cap_read cv c
          else seek_and_read cv c (current_frame p)) = ((ret, frame), c')"
  shows "get_frame cv p =
           (if \<not> ret \<or> frame = None
            then (case last_valid_frame p of
                    Some cached \<Rightarrow> ((True, Some cached, True), p\<lparr>video_capture := Some c'\<rparr>)
                  | None \<Rightarrow> ((False, None, False), p\<lparr>video_capture := Some c'\<rparr>))
            else ((True, frame, False),
                  p\<lparr>video_capture := Some c', last_valid_frame := frame,
                    last_read_position := current_frame p\<rparr>))"
proof (cases "current_frame p - last_read_position p = 1")
  case True
  then have "\<bar>current_frame p - last_read_position p\<bar> = 1"
    and "current_frame p > last_read_position p"
    by auto
  with assms True show ?thesis by (auto simp add: get_frame_def Let_def)
next
  case False
  then have "\<not> (\<bar>current_frame p - last_read_position p\<bar> = 1
               \<and> current_frame p > last_read_position p)"
    by (simp add: forward_step_iff)
  with assms False show ?thesis by (auto simp add: get_frame_def Let_def)
qed

text \<open>The forward loop: every read succeeds, or the loop stops at the first failure.\<close>

lemma read_forward_all_ok:
  "\<forall>i<Suc k. read_ok cv (after_reads cv i c) \<Longrightarrow>
   read_forward cv (Suc k) (rf, c) =
     (fst (cap_read cv (after_reads cv k c)), after_reads cv (Suc k) c)"
proof (induction k arbitrary: rf c)
  case 0
  then show ?case by (simp add: read_ok_def split: prod.splits)
next
  case (Suc k)
  have first: "read_ok cv c"
    using Suc.prems by (metis after_reads.simps(1) zero_less_Suc)
  obtain rf' c' where rd: "cap_read cv c = (rf', c')"
    by (cases "cap_read cv c")
  from first rd have ok: "fst rf'"
    by (simp add: read_ok_def)
  have rest: "\<forall>i<Suc k. read_ok cv (after_reads cv i c')"
  proof (intro allI impI)
    fix i assume "i < Suc k"
    then have "Suc i < Suc (Suc k)" by simp
    then have "read_ok cv (after_reads cv (Suc i) c)" using Suc.prems by blast
    then show "read_ok cv (after_reads cv i c')" using rd by simp
  qed
  have "read_forward cv (Suc (Suc k)) (rf, c) = read_forward cv (Suc k) (rf', c')"
    using rd ok by simp
  also have "\<dots> = (fst (cap_read cv (after_reads cv k c')), after_reads cv (Suc k) c')"
    using Suc.IH [OF rest] .
  finally show ?case using rd by simp
qed

lemma read_forward_first_failure:
  "j < k \<Longrightarrow> \<not> read_ok cv (after_reads cv j c) \<Longrightarrow>
   \<forall>i<j. read_ok cv (after_reads cv i c) \<Longrightarrow>
   read_forward cv k (rf, c) =
     (fst (cap_read cv (after_reads cv j c)), after_reads cv (Suc j) c)"
proof (induction k arbitrary: rf c j)
  case 0
  then show ?case by simp
next
  case (Suc k)
  obtain rf' c' where rd: "cap_read cv c = (rf', c')"
    by (cases "cap_read cv c")
  show ?case
  proof (cases j)
    case 0
    with Suc.prems rd have "\<not> fst rf'" by (simp add: read_ok_def)
    with rd 0 show ?thesis by simp
  next
    case j: (Suc j')
    have ok: "fst rf'"
      using Suc.prems(3) j rd
      by (metis after_reads.simps(1) fst_conv read_ok_def zero_less_Suc)
    have a: "j' < k" using Suc.prems(1) j by simp
    have b: "\<not> read_ok cv (after_reads cv j' c')" using Suc.prems(2) j rd by simp
    have c: "\<forall>i<j'. read_ok cv (after_reads cv i c')"
    proof (intro allI impI)
      fix i assume "i < j'"
      then have "Suc i < j" using j by simp
      then have "read_ok cv (after_reads cv (Suc i) c)" using Suc.prems(3) by blast
      then show "read_ok cv (after_reads cv i c')" using rd by simp
    qed
    have "read_forward cv (Suc k) (rf, c) = read_forward cv k (rf', c')"
      using rd ok by simp
    also have "\<dots> = (fst (cap_read cv (after_reads cv j' c')), after_reads cv (Suc j') c')"
      using Suc.IH [OF a b c] .
    finally show ?thesis using rd j by simp
  qed
qed

section \<open>Evaluating float operations\<close>

text \<open>The exponent search finds the binade of a number of magnitude at least 1.\<close>

lemma exponent_up_eq:
  "2 ^ k \<le> x \<Longrightarrow> x < 2 * 2 ^ k \<Longrightarrow> e + int k \<le> 1024 \<Longrightarrow> exponent_up x e = e + int k"
proof (induction k arbitrary: x e)
  case 0
  then show ?case by (subst exponent_up.simps) simp
next
  case (Suc k)
  have big: "\<not> x < 2"
  proof -
    have "(1::real) \<le> 2 ^ k" by simp
    then have "(2::real) \<le> 2 ^ Suc k" by simp
    with Suc.prems(1) show ?thesis by linarith
  qed
  have small: "\<not> 1024 \<le> e"
    using Suc.prems(3) by simp
  have "exponent_up x e = exponent_up (x / 2) (e + 1)"
    using big small by (subst exponent_up.simps) simp
  also have "\<dots> = (e + 1) + int k"
  proof (rule Suc.IH)
    show "2 ^ k \<le> x / 2" using Suc.prems(1) by simp
    show "x / 2 < 2 * 2 ^ k" using Suc.prems(2) by simp
    show "e + 1 + int k \<le> 1024" using Suc.prems(3) by simp
  qed
  finally show ?case by simp
qed

text \<open>
  Rounding a number of the binade \<open>k \<le> 52\<close>: the nearest multiple of \<open>2^(k - 52)\<close>.
\<close>

lemma round_binary64_binade:
  assumes "2 ^ k \<le> \<bar>x\<bar>" and "\<bar>x\<bar> < 2 * 2 ^ k" and "k \<le> 52"
  shows "round_binary64 x = real_of_int (py_round (x * 2 ^ (52 - k))) / 2 ^ (52 - k)"
proof -
  have one: "1 \<le> \<bar>x\<bar>"
  proof -
    have "(1::real) \<le> 2 ^ k" by simp
    with assms(1) show ?thesis by linarith
  qed
  then have nz: "x \<noteq> 0" by auto
  have e: "exponent_up \<bar>x\<bar> 0 = int k"
    using exponent_up_eq [OF assms(1) assms(2), of 0] assms(3) by simp
  show ?thesis
  proof (cases "k = 52")
    case True
    then show ?thesis
      using nz one e by (simp add: round_binary64_def Let_def)
  next
    case False
    with assms(3) have lt: "k < 52"
      by simp
    then have "nat (52 - int k) = 52 - k"
      by simp
    then show ?thesis
      using nz one e lt by (simp add: round_binary64_def Let_def)
  qed
qed

lemma binary64_finite:
  "\<bar>round_binary64 x\<bar> \<le> 2 ^ 64 \<Longrightarrow> binary64 x = Finite (round_binary64 x)"
proof -
  assume a: "\<bar>round_binary64 x\<bar> \<le> 2 ^ 64"
  have "(2::real) ^ 64 < 2 ^ 1024"
    by (rule power_strict_increasing) simp_all
  with a have "\<not> 2 ^ 1024 \<le> \<bar>round_binary64 x\<bar>"
    by linarith
  then show ?thesis
    by (simp add: binary64_def Let_def)
qed

lemma binary64_zero: "binary64 0 = Finite 0"
  by (simp add: binary64_def round_binary64_def)

text \<open>A number with at most 53 significant bits below \<open>2^53\<close> is a float.\<close>

lemma round_binary64_int:
  assumes "2 ^ k \<le> \<bar>real_of_int n\<bar>" and "\<bar>real_of_int n\<bar> < 2 * 2 ^ k" and "k \<le> 52"
  shows "round_binary64 (real_of_int n) = real_of_int n"
proof -
  have "real_of_int n * 2 ^ (52 - k) = real_of_int (n * 2 ^ (52 - k))"
    by simp
  then have "py_round (real_of_int n * 2 ^ (52 - k)) = n * 2 ^ (52 - k)"
    by (simp only: py_round_def Let_def floor_of_int) simp
  then show ?thesis
    using round_binary64_binade [OF assms] by simp
qed


lemma round_binary64_zero [simp]: "round_binary64 0 = 0"
  by (simp add: round_binary64_def)

lemma round_binary64_one [simp]: "round_binary64 1 = 1"
  using round_binary64_int [of 0 1] by simp

text \<open>Every integer below \<open>2^53\<close> in magnitude is a float.\<close>

lemma round_binary64_small_int:
  assumes "\<bar>n\<bar> < 2 ^ 53"
  shows "round_binary64 (real_of_int n) = real_of_int n"
proof (cases "n = 0")
  case True
  then show ?thesis by simp
next
  case False
  then have pos: "1 \<le> nat \<bar>n\<bar>"
    by simp
  obtain k where k: "2 ^ k \<le> nat \<bar>n\<bar>" "nat \<bar>n\<bar> < 2 ^ (k + 1)"
    using ex_power_ivl1 [of 2 "nat \<bar>n\<bar>"] pos by auto
  have lo: "2 ^ k \<le> \<bar>real_of_int n\<bar>"
  proof -
    have "real (2 ^ k) \<le> real (nat \<bar>n\<bar>)"
      using k(1) by (simp only: of_nat_le_iff)
    then show ?thesis by simp
  qed
  have hi: "\<bar>real_of_int n\<bar> < 2 * 2 ^ k"
  proof -
    have "real (nat \<bar>n\<bar>) < real (2 ^ (k + 1))"
      using k(2) by (simp only: of_nat_less_iff)
    then show ?thesis by simp
  qed
  have "(2::nat) ^ k < 2 ^ 53"
  proof -
    have "nat \<bar>n\<bar> < nat (2 ^ 53)"
      using assms by (simp only: nat_mono_iff zero_less_power zero_less_numeral)
    also have "nat (2 ^ 53) = (2::nat) ^ 53"
      by (simp only: nat_power_eq zero_le_numeral nat_numeral)
    finally have "nat \<bar>n\<bar> < 2 ^ 53" .
    with k(1) show ?thesis by linarith
  qed
  moreover have "(1::nat) < 2"
    by simp
  ultimately have "k < 53"
    using power_strict_increasing_iff [of 2 k 53] by blast
  then have "k \<le> 52"
    by simp
  with lo hi show ?thesis
    by (rule round_binary64_int)
qed

lemma round_binary64_numeral:
  "(numeral w :: int) < 2 ^ 53 \<Longrightarrow> round_binary64 (numeral w) = numeral w"
  using round_binary64_small_int [of "numeral w"] by simp

lemma round_binary64_neg_numeral:
  "(numeral w :: int) < 2 ^ 53 \<Longrightarrow> round_binary64 (- numeral w) = - numeral w"
  using round_binary64_small_int [of "- numeral w"] by simp

text \<open>\<^verbatim>\<open>binary64\<close> never yields NaN, and is the rounded value when that is small.\<close>

lemma binary64_not_NaN: "binary64 x \<noteq> NaN"
  by (simp add: binary64_def Let_def)

lemma binary64_small_int:
  assumes "\<bar>n\<bar> < 2 ^ 53"
  shows "binary64 (real_of_int n) = Finite (real_of_int n)"
proof -
  have r: "round_binary64 (real_of_int n) = real_of_int n"
    using assms by (rule round_binary64_small_int)
  have "real_of_int \<bar>n\<bar> < real_of_int (2 ^ 53)"
    using assms by (simp only: of_int_less_iff)
  then have small: "\<bar>real_of_int n\<bar> < 2 ^ 53"
    by (simp only: of_int_abs of_int_power of_int_numeral)
  have "(2::real) ^ 53 \<le> 2 ^ 64"
    by (rule power_increasing) simp_all
  with small have "\<bar>round_binary64 (real_of_int n)\<bar> \<le> 2 ^ 64"
    unfolding r by linarith
  then show ?thesis
    using binary64_finite [of "real_of_int n"] r by simp
qed

lemma binary64_numeral:
  "(numeral w :: int) < 2 ^ 53 \<Longrightarrow> binary64 (numeral w) = Finite (numeral w)"
  using binary64_small_int [of "numeral w"] by simp

lemma binary64_neg_numeral:
  "(numeral w :: int) < 2 ^ 53 \<Longrightarrow> binary64 (- numeral w) = Finite (- numeral w)"
  using binary64_small_int [of "- numeral w"] by simp

text \<open>The floats that the examples below compute with.\<close>

lemma round_59_9996: "round_binary64 (149999 / 2500) = 4222096503162169 / 70368744177664"
  by (subst round_binary64_binade [where k = 5]) (simp_all add: py_round_def)

lemma round_299_9997:
  "round_binary64 (2999997 / 10000) = 5277650535668987 / 17592186044416"
  by (subst round_binary64_binade [where k = 8]) (simp_all add: py_round_def)

lemma round_ntsc: "round_binary64 (30000 / 1001) = 1054476685978981 / 35184372088832"
  by (subst round_binary64_binade [where k = 4]) (simp_all add: py_round_def)

lemma round_29_9: "round_binary64 (299 / 10) = 4208050901824307 / 140737488355328"
  by (subst round_binary64_binade [where k = 4]) (simp_all add: py_round_def)

lemma round_frame_8991:
  "round_binary64 (316342689450688512 / 1054476685978981)
     = 5277650535668987 / 17592186044416"
  by (subst round_binary64_binade [where k = 8]) (simp_all add: py_round_def)

lemma round_30_times_29_9: "round_binary64 (63120763527364605 / 70368744177664) = 897"
  by (subst round_binary64_binade [where k = 9]) (simp_all add: py_round_def)

lemma round_us_59_9996:
  "round_binary64 (1099071823124890625 / 1099511627776) = 1073312327270401 / 1073741824"
  by (subst round_binary64_binade [where k = 19]) (simp_all add: py_round_def)

lemma round_us_299_9997:
  "round_binary64 (274795443571921875 / 274877906944) = 8587357611622559 / 8589934592"
  by (subst round_binary64_binade [where k = 19]) (simp_all add: py_round_def)

lemma round_3661_5: "round_binary64 (7323 / 2) = 7323 / 2"
  by (subst round_binary64_binade [where k = 11]) (simp_all add: py_round_def)

lemmas float_values =
  round_59_9996 round_299_9997 round_ntsc round_29_9 round_frame_8991 round_30_times_29_9
  round_us_59_9996 round_us_299_9997 round_3661_5
  round_binary64_numeral round_binary64_neg_numeral binary64_numeral binary64_neg_numeral

lemmas float_ops =
  binary64_def py_round_def py_int_def c_fmod_def py_mod_def py_floordiv_def Let_def

lemmas format_defs =
  format_02d_def format_06_3f_def format_3f_def zfill_def digit_char_def numeral_2_eq_2


section \<open>Decoding policy of \<^verbatim>\<open>get_frame\<close>\<close>

text \<open>
  C1. On a player that holds a capture, \<^verbatim>\<open>get_frame\<close> decodes with a single plain
  \<^verbatim>\<open>read\<close> exactly when \<^verbatim>\<open>current_frame - last_read_position = 1\<close>; in every other
  case (one step backward, the same position, any jump) it decodes with
  \<^verbatim>\<open>_seek_and_read\<close>. Whatever the library does, the capture is left in the state that the
  chosen decode leaves it in.
\<close>

theorem get_frame_decode_path:
  assumes "video_capture p = Some c"
  shows "video_capture (snd (get_frame cv p)) =
           Some (snd (if current_frame p - last_read_position p = 1
                      then cap_read cv c
                      else seek_and_read cv c (current_frame p)))"
proof -
  obtain ret frame c' where d:
    "(if current_frame p - last_read_position p = 1
      then cap_read cv c
      else seek_and_read cv c (current_frame p)) = ((ret, frame), c')"
    by (metis surj_pair)
  show ?thesis
    unfolding get_frame_loaded [OF assms d] d
    by (simp split: option.splits)
qed

text \<open>
  On the sample backend the calls are recorded: the first frame after loading is one
  \<^verbatim>\<open>read\<close>, a jump to frame 2 starts with a seek to frame 2.
\<close>

theorem get_frame_decode_path_witness:
  "video_capture (player_on clip_gop) = Some clip_gop
   \<and> current_frame (player_on clip_gop) - last_read_position (player_on clip_gop) = 1
   \<and> map_option calls (video_capture (snd (get_frame sample_backend (player_on clip_gop))))
       = Some [Read]
   \<and> video_capture ((player_on clip_gop)\<lparr>current_frame := 2\<rparr>) = Some clip_gop
   \<and> map_option calls
        (video_capture (snd (get_frame sample_backend ((player_on clip_gop)\<lparr>current_frame := 2\<rparr>))))
       = Some [Seek 2, Read, Seek 0, Read, Read, Read]"
proof -
  have h1: "video_capture (player_on clip_gop) = Some clip_gop"
    by (simp add: player_on_def)
  have h2: "video_capture ((player_on clip_gop)\<lparr>current_frame := 2\<rparr>) = Some clip_gop"
    by (simp add: player_on_def)
  have step: "current_frame (player_on clip_gop) - last_read_position (player_on clip_gop) = 1"
    by (simp add: player_on_def init_player_def)
  have r1: "calls (snd (cap_read sample_backend clip_gop)) = [Read]"
    by (simp add: sample_simps)
  have r2: "calls (snd (seek_and_read sample_backend clip_gop 2))
              = [Seek 2, Read, Seek 0, Read, Read, Read]"
    by (simp add: sample_simps seek_and_read_def Let_def eval_nat_numeral)
  have jump: "current_frame ((player_on clip_gop)\<lparr>current_frame := 2\<rparr>)
                - last_read_position ((player_on clip_gop)\<lparr>current_frame := 2\<rparr>) \<noteq> 1"
    by (simp add: player_on_def init_player_def)
  show ?thesis
    using h1 h2 step r1 r2 jump
      get_frame_decode_path [OF h1, of sample_backend]
      get_frame_decode_path [OF h2, of sample_backend]
    by simp
qed

text \<open>
  C2. On a player that holds a capture, let \<open>d\<close> be the result of the fresh decode. If it
  fails (\<^verbatim>\<open>ret\<close> false or no frame), \<^verbatim>\<open>get_frame\<close> returns success with the cached frame
  and \<^verbatim>\<open>used_cache = True\<close> when a cached frame exists, and the failure triple only when
  none exists; the cache and \<^verbatim>\<open>last_read_position\<close> stay as they were. If it succeeds,
  the decoded frame is returned with \<^verbatim>\<open>used_cache = False\<close>, the cache is overwritten with
  it and \<^verbatim>\<open>last_read_position\<close> becomes \<^verbatim>\<open>current_frame\<close>.
\<close>

theorem get_frame_cache_fallback:
  assumes "video_capture p = Some c"
    and "d = (if current_frame p - last_read_position p = 1
              then cap_read cv c
              else seek_and_read cv c (current_frame p))"
  shows "(\<not> fst (fst d) \<or> snd (fst d) = None \<longrightarrow>
            fst (get_frame cv p) =
              (case last_valid_frame p of
                 Some cached \<Rightarrow> (True, Some cached, True)
               | None \<Rightarrow> (False, None, False))
            \<and> snd (get_frame cv p) = p\<lparr>video_capture := Some (snd d)\<rparr>)
       \<and> (fst (fst d) \<and> snd (fst d) \<noteq> None \<longrightarrow>
            fst (get_frame cv p) = (True, snd (fst d), False)
            \<and> snd (get_frame cv p) =
                p\<lparr>video_capture := Some (snd d), last_valid_frame := snd (fst d),
                  last_read_position := current_frame p\<rparr>)"
proof -
  obtain ret frame c' where d: "d = ((ret, frame), c')"
    by (metis surj_pair)
  have eq: "(if current_frame p - last_read_position p = 1
             then cap_read cv c
             else seek_and_read cv c (current_frame p)) = ((ret, frame), c')"
    using assms(2) d by simp
  show ?thesis
    unfolding get_frame_loaded [OF assms(1) eq] d
    by (simp split: option.splits)
qed

text \<open>
  A player on the corrupt video, at frame 2 with frame 9 in its cache: the decode fails
  and the cached frame comes back. The first frame of the good video decodes and is cached.
\<close>

theorem get_frame_cache_fallback_witness:
  "video_capture ((player_on clip_corrupt)\<lparr>current_frame := 2, last_valid_frame := Some 9\<rparr>)
     = Some clip_corrupt
   \<and> \<not> fst (fst (seek_and_read sample_backend clip_corrupt 2))
   \<and> fst (get_frame sample_backend
            ((player_on clip_corrupt)\<lparr>current_frame := 2, last_valid_frame := Some 9\<rparr>))
       = (True, Some 9, True)
   \<and> video_capture (player_on clip_gop) = Some clip_gop
   \<and> fst (cap_read sample_backend clip_gop) = (True, Some 0)
   \<and> fst (get_frame sample_backend (player_on clip_gop)) = (True, Some 0, False)
   \<and> last_valid_frame (snd (get_frame sample_backend (player_on clip_gop))) = Some 0
   \<and> last_read_position (snd (get_frame sample_backend (player_on clip_gop))) = 0"
proof -
  let ?p = "(player_on clip_corrupt)\<lparr>current_frame := 2, last_valid_frame := Some 9\<rparr>"
  have h1: "video_capture ?p = Some clip_corrupt"
    by (simp add: player_on_def)
  have d1: "seek_and_read sample_backend clip_corrupt 2
              = (if current_frame ?p - last_read_position ?p = 1
                 then cap_read sample_backend clip_corrupt
                 else seek_and_read sample_backend clip_corrupt (current_frame ?p))"
    by (simp add: player_on_def init_player_def)
  have f1: "fst (seek_and_read sample_backend clip_corrupt 2) = (False, None)"
    by (simp add: sample_simps seek_and_read_def Let_def eval_nat_numeral)
  have c1: "last_valid_frame ?p = Some 9"
    by simp
  have h2: "video_capture (player_on clip_gop) = Some clip_gop"
    by (simp add: player_on_def)
  have d2: "cap_read sample_backend clip_gop
              = (if current_frame (player_on clip_gop) - last_read_position (player_on clip_gop) = 1
                 then cap_read sample_backend clip_gop
                 else seek_and_read sample_backend clip_gop (current_frame (player_on clip_gop)))"
    by (simp add: player_on_def init_player_def)
  have f2: "fst (cap_read sample_backend clip_gop) = (True, Some 0)"
    by (simp add: sample_simps)
  have cf2: "current_frame (player_on clip_gop) = 0"
    by (simp add: player_on_def init_player_def)
  show ?thesis
    using h1 f1 c1 h2 f2 cf2
      get_frame_cache_fallback [OF h1 d1]
      get_frame_cache_fallback [OF h2 d2]
    by simp
qed


section \<open>Keyframe recovery in \<^verbatim>\<open>_seek_and_read\<close>\<close>

text \<open>
  The claim that the recovery returns the last successfully decoded frame of the forward
  run, so that one successful read in the run is enough for a frame to be returned, fails on
  the video whose third packet is corrupt: seeking to frame 2, the direct read fails, the
  forward run from frame 0 decodes frames 0 and 1 and fails on frame 2, and the method
  returns failure with no frame.
\<close>

theorem seek_and_read_partial_run_counterexample:
  "\<not> read_ok sample_backend (cap_set sample_backend clip_corrupt CAP_PROP_POS_FRAMES 2)
   \<and> fst (cap_read sample_backend
            (after_reads sample_backend 0
               (cap_set sample_backend
                  (snd (cap_read sample_backend
                          (cap_set sample_backend clip_corrupt CAP_PROP_POS_FRAMES 2)))
                  CAP_PROP_POS_FRAMES 0)))
       = (True, Some 0)
   \<and> fst (cap_read sample_backend
            (after_reads sample_backend 1
               (cap_set sample_backend
                  (snd (cap_read sample_backend
                          (cap_set sample_backend clip_corrupt CAP_PROP_POS_FRAMES 2)))
                  CAP_PROP_POS_FRAMES 0)))
       = (True, Some 1)
   \<and> calls (snd (seek_and_read sample_backend clip_corrupt 2))
       = [Seek 2, Read, Seek 0, Read, Read, Read]
   \<and> fst (seek_and_read sample_backend clip_corrupt 2) = (False, None)"
  by (simp add: sample_simps read_ok_def seek_and_read_def Let_def eval_nat_numeral)

text \<open>
  C3, as the code has it. Let the direct seek to \<^verbatim>\<open>current_frame\<close> and its single read
  fail, and let \<open>n = min current_frame 30\<close>. When \<^verbatim>\<open>current_frame\<close> is not positive, no
  recovery is attempted and the method fails. Otherwise the capture is set back by \<open>n\<close>
  frames and up to \<open>n + 1\<close> frames are read forward, the last of them at the target index.
  If all of these reads succeed, the result is the result of the last one, the frame at the
  target index. If one of them fails, the run stops at the first failed read and the method
  fails with no frame, whatever was decoded before.
\<close>

theorem seek_and_read_recovery:
  assumes direct: "\<not> read_ok cv (cap_set cv c CAP_PROP_POS_FRAMES cur)"
    and c2: "c2 = snd (cap_read cv (cap_set cv c CAP_PROP_POS_FRAMES cur))"
    and c3: "c3 = cap_set cv c2 CAP_PROP_POS_FRAMES (cur - min cur 30)"
    and n: "n = nat (min cur 30)"
  shows "(cur \<le> 0 \<longrightarrow> seek_and_read cv c cur = ((False, None), c2))
       \<and> (0 < cur \<and> (\<forall>i\<le>n. read_ok cv (after_reads cv i c3)) \<longrightarrow>
            seek_and_read cv c cur =
              (fst (cap_read cv (after_reads cv n c3)), after_reads cv (Suc n) c3))
       \<and> (0 < cur \<longrightarrow>
            (\<forall>j\<le>n. \<not> read_ok cv (after_reads cv j c3)
                     \<and> (\<forall>i<j. read_ok cv (after_reads cv i c3)) \<longrightarrow>
               seek_and_read cv c cur = ((False, None), after_reads cv (Suc j) c3)))"
proof (intro conjI impI allI)
  obtain rf0 where rd0: "cap_read cv (cap_set cv c CAP_PROP_POS_FRAMES cur) = (rf0, c2)"
    using c2 by (cases "cap_read cv (cap_set cv c CAP_PROP_POS_FRAMES cur)") simp
  from direct rd0 have nok0: "\<not> fst rf0"
    by (simp add: read_ok_def)
  {
    assume "cur \<le> 0"
    then show "seek_and_read cv c cur = ((False, None), c2)"
      using rd0 nok0 by (cases rf0) (simp add: seek_and_read_def Let_def)
  }
  have run: "seek_and_read cv c cur =
      (let ((ret, frame), c4) = read_forward cv (Suc n) (rf0, c3)
       in if ret then ((ret, frame), c4) else ((False, None), c4))" if "0 < cur"
  proof -
    have "nat (min cur 30 + 1) = Suc n"
      using that n by simp
    then show ?thesis
      using rd0 nok0 that c3 by (cases rf0) (simp add: seek_and_read_def Let_def)
  qed
  {
    assume h: "0 < cur \<and> (\<forall>i\<le>n. read_ok cv (after_reads cv i c3))"
    then have all: "\<forall>i<Suc n. read_ok cv (after_reads cv i c3)"
      by (simp add: less_Suc_eq_le)
    have last_ok: "fst (fst (cap_read cv (after_reads cv n c3)))"
      using h by (simp add: read_ok_def)
    show "seek_and_read cv c cur =
            (fst (cap_read cv (after_reads cv n c3)), after_reads cv (Suc n) c3)"
      using run h read_forward_all_ok [OF all, of rf0] last_ok
      by (cases "fst (cap_read cv (after_reads cv n c3))")
        (simp del: after_reads.simps read_forward.simps)
  }
  {
    fix j
    assume pos: "0 < cur" and jn: "j \<le> n"
      and h: "\<not> read_ok cv (after_reads cv j c3) \<and> (\<forall>i<j. read_ok cv (after_reads cv i c3))"
    then have a: "j < Suc n" and b: "\<not> read_ok cv (after_reads cv j c3)"
      and c: "\<forall>i<j. read_ok cv (after_reads cv i c3)"
      by simp_all
    have bad: "\<not> fst (fst (cap_read cv (after_reads cv j c3)))"
      using b by (simp add: read_ok_def)
    show "seek_and_read cv c cur = ((False, None), after_reads cv (Suc j) c3)"
      using run [OF pos] read_forward_first_failure [OF a b c, of rf0] bad
      by (cases "fst (cap_read cv (after_reads cv j c3))")
        (simp del: after_reads.simps read_forward.simps)
  }
qed

text \<open>
  On the video of one key frame and two delta frames, the direct read of frame 2 fails (a
  delta frame needs its predecessor) and the run from frame 0 decodes all three frames. On
  the video whose third packet is corrupt, the run stops at its third read.
\<close>

theorem seek_and_read_recovery_witness:
  "\<not> read_ok sample_backend (cap_set sample_backend clip_gop CAP_PROP_POS_FRAMES 2)
   \<and> (0::int) < 2
   \<and> read_ok sample_backend
        (after_reads sample_backend 0
           (cap_set sample_backend
              (snd (cap_read sample_backend
                      (cap_set sample_backend clip_gop CAP_PROP_POS_FRAMES 2)))
              CAP_PROP_POS_FRAMES 0))
   \<and> read_ok sample_backend
        (after_reads sample_backend 1
           (cap_set sample_backend
              (snd (cap_read sample_backend
                      (cap_set sample_backend clip_gop CAP_PROP_POS_FRAMES 2)))
              CAP_PROP_POS_FRAMES 0))
   \<and> read_ok sample_backend
        (after_reads sample_backend 2
           (cap_set sample_backend
              (snd (cap_read sample_backend
                      (cap_set sample_backend clip_gop CAP_PROP_POS_FRAMES 2)))
              CAP_PROP_POS_FRAMES 0))
   \<and> fst (seek_and_read sample_backend clip_gop 2) = (True, Some 2)
   \<and> \<not> read_ok sample_backend (cap_set sample_backend clip_corrupt CAP_PROP_POS_FRAMES 2)
   \<and> \<not> read_ok sample_backend
          (after_reads sample_backend 2
             (cap_set sample_backend
                (snd (cap_read sample_backend
                        (cap_set sample_backend clip_corrupt CAP_PROP_POS_FRAMES 2)))
                CAP_PROP_POS_FRAMES 0))
   \<and> fst (seek_and_read sample_backend clip_corrupt 2) = (False, None)"
proof -
  let ?c2 = "snd (cap_read sample_backend (cap_set sample_backend clip_gop CAP_PROP_POS_FRAMES 2))"
  let ?c3 = "cap_set sample_backend ?c2 CAP_PROP_POS_FRAMES (2 - min 2 30)"
  let ?b2 = "snd (cap_read sample_backend (cap_set sample_backend clip_corrupt CAP_PROP_POS_FRAMES 2))"
  let ?b3 = "cap_set sample_backend ?b2 CAP_PROP_POS_FRAMES (2 - min 2 30)"
  have direct: "\<not> read_ok sample_backend (cap_set sample_backend clip_gop CAP_PROP_POS_FRAMES 2)"
    by (simp add: sample_simps read_ok_def)
  have ok0: "read_ok sample_backend (after_reads sample_backend 0 ?c3)"
    by (simp add: sample_simps read_ok_def)
  have ok1: "read_ok sample_backend (after_reads sample_backend 1 ?c3)"
    by (simp add: sample_simps read_ok_def)
  have ok2: "read_ok sample_backend (after_reads sample_backend 2 ?c3)"
    by (simp add: sample_simps read_ok_def eval_nat_numeral)
  have ok: "\<forall>i\<le>nat (min 2 30). read_ok sample_backend (after_reads sample_backend i ?c3)"
  proof (intro allI impI)
    fix i :: nat
    assume "i \<le> nat (min 2 30)"
    then have "i = 0 \<or> i = 1 \<or> i = 2"
      by auto
    then show "read_ok sample_backend (after_reads sample_backend i ?c3)"
      using ok0 ok1 ok2 by auto
  qed
  have last: "fst (cap_read sample_backend (after_reads sample_backend (nat (min 2 30)) ?c3))
                = (True, Some 2)"
    by (simp add: sample_simps eval_nat_numeral)
  have good: "seek_and_read sample_backend clip_gop 2 =
          (fst (cap_read sample_backend (after_reads sample_backend (nat (min 2 30)) ?c3)),
           after_reads sample_backend (Suc (nat (min 2 30))) ?c3)"
    using seek_and_read_recovery [OF direct refl refl refl] ok by simp
  have direct': "\<not> read_ok sample_backend (cap_set sample_backend clip_corrupt CAP_PROP_POS_FRAMES 2)"
    by (simp add: sample_simps read_ok_def)
  have bad0: "read_ok sample_backend (after_reads sample_backend 0 ?b3)"
    by (simp add: sample_simps read_ok_def)
  have bad1: "read_ok sample_backend (after_reads sample_backend 1 ?b3)"
    by (simp add: sample_simps read_ok_def)
  have bad2: "\<not> read_ok sample_backend (after_reads sample_backend 2 ?b3)"
    by (simp add: sample_simps read_ok_def eval_nat_numeral)
  have before: "\<forall>i<2. read_ok sample_backend (after_reads sample_backend i ?b3)"
  proof (intro allI impI)
    fix i :: nat
    assume "i < 2"
    then have "i = 0 \<or> i = 1"
      by auto
    then show "read_ok sample_backend (after_reads sample_backend i ?b3)"
      using bad0 bad1 by auto
  qed
  have stop: "seek_and_read sample_backend clip_corrupt 2 =
          ((False, None), after_reads sample_backend (Suc 2) ?b3)"
  proof -
    have pos: "(0::int) < 2"
      by simp
    have jn: "(2::nat) \<le> nat (min 2 30)"
      by simp
    from seek_and_read_recovery [OF direct' refl refl refl] pos
    have "\<forall>j\<le>nat (min 2 30).
            \<not> read_ok sample_backend (after_reads sample_backend j ?b3)
            \<and> (\<forall>i<j. read_ok sample_backend (after_reads sample_backend i ?b3)) \<longrightarrow>
            seek_and_read sample_backend clip_corrupt 2 =
              ((False, None), after_reads sample_backend (Suc j) ?b3)"
      by blast
    then show ?thesis
      using jn bad2 before by blast
  qed
  show ?thesis
    using direct ok0 ok1 ok2 last good direct' bad2 stop by simp
qed

section \<open>Loading a video\<close>

text \<open>
  What \<^verbatim>\<open>load_video\<close> does for every backend: it releases the capture the player held,
  it succeeds exactly when the preferred or the generic opener yields an opened capture, and
  on success it resets \<^verbatim>\<open>current_frame\<close>, the cached frame and
  \<^verbatim>\<open>last_read_position\<close>. On failure it keeps the capture that failed to open and every
  other attribute of the player, so that \<^verbatim>\<open>is_loaded\<close> holds afterwards.
\<close>

lemma load_video_outcome:
  "snd (snd (load_video cv file_path p)) = map_option (cap_release cv) (video_capture p)
   \<and> fst (fst (load_video cv file_path p)) =
       (cap_isOpened cv (cap_open_ffmpeg cv file_path)
        \<or> cap_isOpened cv (cap_open_default cv file_path))
   \<and> (fst (fst (load_video cv file_path p)) \<longrightarrow>
        current_frame (fst (snd (load_video cv file_path p))) = 0
        \<and> last_valid_frame (fst (snd (load_video cv file_path p))) = None
        \<and> last_read_position (fst (snd (load_video cv file_path p))) = - 1)
   \<and> (\<not> fst (fst (load_video cv file_path p)) \<longrightarrow>
        fst (load_video cv file_path p) = (False, Some ''Failed to open video file'')
        \<and> fst (snd (load_video cv file_path p)) =
            p\<lparr>video_capture := Some (cap_open_default cv file_path)\<rparr>)
   \<and> is_loaded (fst (snd (load_video cv file_path p)))"
  by (simp add: load_video_def is_loaded_def Let_def)

text \<open>
  C4, at a failing load. No opener of the sample backend knows \<^verbatim>\<open>missing.mp4\<close>. On a
  fresh player the load fails and \<^verbatim>\<open>is_loaded\<close> is true afterwards, while \<^verbatim>\<open>get_frame\<close>
  fails. On a player that has loaded \<^verbatim>\<open>old.avi\<close> and shown its first frame, the load fails
  as well, the frame count of the old video stays, and \<^verbatim>\<open>get_frame\<close> succeeds with the
  cached frame 7 of the old video.
\<close>

theorem load_video_failure_keeps_session:
  "fst (load_video sample_backend ''missing.mp4'' (init_player :: (capture, nat) video_player))
     = (False, Some ''Failed to open video file'')
   \<and> \<not> is_loaded (init_player :: (capture, nat) video_player)
   \<and> is_loaded (fst (snd (load_video sample_backend ''missing.mp4''
                             (init_player :: (capture, nat) video_player))))
   \<and> fst (load_video sample_backend ''old.avi'' (init_player :: (capture, nat) video_player))
       = (True, None)
   \<and> fst (get_frame sample_backend
            (fst (snd (load_video sample_backend ''old.avi'' init_player))))
       = (True, Some 7, False)
   \<and> fst (load_video sample_backend ''missing.mp4''
            (snd (get_frame sample_backend
                    (fst (snd (load_video sample_backend ''old.avi'' init_player))))))
       = (False, Some ''Failed to open video file'')
   \<and> total_frames
        (fst (snd (load_video sample_backend ''missing.mp4''
                     (snd (get_frame sample_backend
                             (fst (snd (load_video sample_backend ''old.avi'' init_player))))))))
       = 2
   \<and> fst (get_frame sample_backend
            (fst (snd (load_video sample_backend ''missing.mp4''
                         (snd (get_frame sample_backend
                                 (fst (snd (load_video sample_backend ''old.avi''
                                              init_player)))))))))
       = (True, Some 7, True)"
  by (simp add: sample_simps load_video_def get_frame_def seek_and_read_def is_loaded_def
        py_int_def Let_def)

text \<open>The two observations after the failed loads, taken from the statement above.\<close>

theorem load_video_failure_keeps_session_witness:
  "is_loaded (fst (snd (load_video sample_backend ''missing.mp4''
                          (init_player :: (capture, nat) video_player))))
   \<and> fst (get_frame sample_backend
            (fst (snd (load_video sample_backend ''missing.mp4''
                         (snd (get_frame sample_backend
                                 (fst (snd (load_video sample_backend ''old.avi''
                                              init_player)))))))))
       = (True, Some 7, True)"
  using load_video_failure_keeps_session by blast

section \<open>Frame navigation\<close>

text \<open>
  \<^verbatim>\<open>get_frame\<close> changes the capture, the cache and \<^verbatim>\<open>last_read_position\<close> only.
\<close>

lemma get_frame_keeps_position:
  "current_frame (snd (get_frame cv p)) = current_frame p
   \<and> total_frames (snd (get_frame cv p)) = total_frames p
   \<and> fps (snd (get_frame cv p)) = fps p"
  by (simp add: get_frame_def Let_def split: option.splits prod.splits)

text \<open>
  Every player that can be reached has its \<^verbatim>\<open>current_frame\<close> in range, so the
  assumption of the statements below holds of every state of a run.
\<close>

lemma reachable_in_range:
  "reachable cv p \<Longrightarrow> current_frame_in_range p"
proof (induction rule: reachable.induct)
  case r_init
  show ?case by (simp add: current_frame_in_range_def init_player_def)
next
  case (r_load p file_path)
  then show ?case
    by (auto simp add: current_frame_in_range_def load_video_def Let_def split: if_splits)
next
  case (r_release p)
  then show ?case
    by (auto simp add: current_frame_in_range_def release_def split: option.splits if_splits)
next
  case (r_get_frame p)
  then show ?case
    by (auto simp add: current_frame_in_range_def get_frame_keeps_position split: if_splits)
next
  case (r_next p)
  then show ?case
    by (auto simp add: current_frame_in_range_def next_frame_def split: if_splits)
next
  case (r_previous p)
  then show ?case
    by (auto simp add: current_frame_in_range_def previous_frame_def split: if_splits)
next
  case (r_skip_frames p frame_count)
  then show ?case
    by (auto simp add: current_frame_in_range_def skip_frames_def Let_def split: if_splits)
next
  case (r_skip_time p seconds)
  then show ?case
    by (auto simp add: current_frame_in_range_def skip_time_def skip_frames_def Let_def
          split: if_splits sum.splits)
next
  case (r_seek_to p frame_num)
  then show ?case
    by (auto simp add: current_frame_in_range_def seek_to_def Let_def split: if_splits)
qed

text \<open>
  C5. From a player whose \<^verbatim>\<open>current_frame\<close> is in range, each of \<^verbatim>\<open>next_frame\<close>,
  \<^verbatim>\<open>previous_frame\<close>, \<^verbatim>\<open>skip_frames\<close> with any integer and \<^verbatim>\<open>skip_time\<close> with any
  float (a real number of seconds, or an infinity or NaN, for which it raises) leaves
  \<^verbatim>\<open>total_frames\<close> as it was and \<^verbatim>\<open>current_frame\<close> in range: between 0 and
  \<^verbatim>\<open>total_frames - 1\<close> when there are frames, and 0 when there are none.
\<close>

theorem navigation_keeps_current_frame_in_range:
  assumes "current_frame_in_range p"
  shows "current_frame_in_range (snd (next_frame p))
       \<and> current_frame_in_range (snd (previous_frame p))
       \<and> current_frame_in_range (snd (skip_frames delta p))
       \<and> current_frame_in_range (snd (skip_time seconds p))
       \<and> total_frames (snd (next_frame p)) = total_frames p
       \<and> total_frames (snd (previous_frame p)) = total_frames p
       \<and> total_frames (snd (skip_frames delta p)) = total_frames p
       \<and> total_frames (snd (skip_time seconds p)) = total_frames p"
  using assms
  by (auto simp add: current_frame_in_range_def next_frame_def previous_frame_def
        skip_frames_def skip_time_def Let_def split: if_splits sum.splits)

theorem navigation_keeps_current_frame_in_range_witness:
  "current_frame_in_range ((player_on clip_gop)\<lparr>current_frame := 2\<rparr>)
   \<and> current_frame (snd (next_frame ((player_on clip_gop)\<lparr>current_frame := 2\<rparr>))) = 2
   \<and> current_frame (snd (previous_frame ((player_on clip_gop)\<lparr>current_frame := 2\<rparr>))) = 1
   \<and> current_frame (snd (skip_frames (- 7) ((player_on clip_gop)\<lparr>current_frame := 2\<rparr>))) = 0
   \<and> current_frame (snd (skip_time (Finite 30) ((player_on clip_gop)\<lparr>current_frame := 2\<rparr>))) = 2
   \<and> current_frame_in_range
        (snd (skip_time (Finite 30) ((player_on clip_gop)\<lparr>current_frame := 2\<rparr>)))"
proof -
  have h: "current_frame_in_range ((player_on clip_gop)\<lparr>current_frame := 2\<rparr>)"
    by (simp add: current_frame_in_range_def sample_simps)
  show ?thesis
    using h navigation_keeps_current_frame_in_range [OF h, of "- 7" "Finite 30"]
    by (simp add: sample_simps next_frame_def previous_frame_def skip_frames_def
          skip_time_def py_int_def binary64_numeral)
qed

text \<open>
  C6. \<^verbatim>\<open>skip_frames\<close> moves \<^verbatim>\<open>current_frame\<close> to \<^verbatim>\<open>current_frame + delta\<close> clamped
  into \<open>[0, total_frames - 1]\<close> (stated for a video with frames), changes nothing else, and
  returns the new position minus the old one, which from a position in range is never
  larger in magnitude than the request. \<^verbatim>\<open>skip_time\<close> on a real number of seconds is
  \<^verbatim>\<open>skip_frames\<close> on the float product \<^verbatim>\<open>seconds * fps\<close> rounded toward zero; when the
  product overflows it raises and leaves the player as it was. From frame 5 of 10,
  skipping 100 frames stops at frame 9 and returns 4; at 25 frames per second, \<open>-5\<close>
  seconds are \<open>-125\<close> frames, and from frame 10 that stops at frame 0 and returns \<open>-10\<close>.
  The product is the rounded one: at 29.9 frames per second, 30 seconds are 897 frames,
  although the exact product of the two floats is below 897.
\<close>

theorem skip_frames_clamps:
  "(0 < total_frames p \<longrightarrow>
      current_frame (snd (skip_frames delta p)) =
        (if current_frame p + delta < 0 then 0
         else if current_frame p + delta > total_frames p - 1 then total_frames p - 1
         else current_frame p + delta))
   \<and> fst (skip_frames delta p) = current_frame (snd (skip_frames delta p)) - current_frame p
   \<and> snd (skip_frames delta p) = p\<lparr>current_frame := current_frame (snd (skip_frames delta p))\<rparr>
   \<and> (current_frame_in_range p \<longrightarrow> \<bar>fst (skip_frames delta p)\<bar> \<le> \<bar>delta\<bar>)
   \<and> skip_time (Finite seconds) p =
       (case binary64 (seconds * fps p) of
          Finite x \<Rightarrow>
            (Inr (fst (skip_frames (if x < 0 then - \<lfloor>- x\<rfloor> else \<lfloor>x\<rfloor>) p)),
             snd (skip_frames (if x < 0 then - \<lfloor>- x\<rfloor> else \<lfloor>x\<rfloor>) p))
        | _ \<Rightarrow> (Inl OverflowError, p))
   \<and> skip_frames 100 (p\<lparr>current_frame := 5, total_frames := 10\<rparr>)
       = (4, p\<lparr>current_frame := 9, total_frames := 10\<rparr>)
   \<and> int_of_float (fl_mul (Finite (- 5)) (Finite 25)) = Inr (- 125)
   \<and> skip_time (Finite (- 5)) (p\<lparr>current_frame := 10, fps := 25\<rparr>)
       = (Inr (- 10), p\<lparr>current_frame := 0, fps := 25\<rparr>)
   \<and> \<lfloor>30 * round_binary64 29.9\<rfloor> = 896
   \<and> int_of_float (fl_mul (Finite 30) (Finite (round_binary64 29.9))) = Inr 897
   \<and> skip_time (Finite 30) (p\<lparr>current_frame := 0, total_frames := 1000, fps := round_binary64 29.9\<rparr>)
       = (Inr 897, p\<lparr>current_frame := 897, total_frames := 1000, fps := round_binary64 29.9\<rparr>)"
proof -
  have trunc: "py_int x = (if x < 0 then - \<lfloor>- x\<rfloor> else \<lfloor>x\<rfloor>)" for x
    by (simp add: py_int_def ceiling_def)
  have a: "0 < total_frames p \<longrightarrow>
      current_frame (snd (skip_frames delta p)) =
        (if current_frame p + delta < 0 then 0
         else if current_frame p + delta > total_frames p - 1 then total_frames p - 1
         else current_frame p + delta)"
    by (auto simp add: skip_frames_def Let_def)
  have b: "fst (skip_frames delta p) = current_frame (snd (skip_frames delta p)) - current_frame p"
    by (simp add: skip_frames_def Let_def)
  have c: "snd (skip_frames delta p) = p\<lparr>current_frame := current_frame (snd (skip_frames delta p))\<rparr>"
    by (simp add: skip_frames_def Let_def)
  have d: "current_frame_in_range p \<longrightarrow> \<bar>fst (skip_frames delta p)\<bar> \<le> \<bar>delta\<bar>"
    by (auto simp add: skip_frames_def current_frame_in_range_def Let_def split: if_splits)
  have e: "skip_time (Finite seconds) p =
       (case binary64 (seconds * fps p) of
          Finite x \<Rightarrow>
            (Inr (fst (skip_frames (if x < 0 then - \<lfloor>- x\<rfloor> else \<lfloor>x\<rfloor>) p)),
             snd (skip_frames (if x < 0 then - \<lfloor>- x\<rfloor> else \<lfloor>x\<rfloor>) p))
        | _ \<Rightarrow> (Inl OverflowError, p))"
  proof (cases "binary64 (seconds * fps p)")
    case (Finite x)
    then show ?thesis by (simp add: skip_time_def trunc)
  next
    case PosInf
    then show ?thesis by (simp add: skip_time_def)
  next
    case NegInf
    then show ?thesis by (simp add: skip_time_def)
  next
    case NaN
    then show ?thesis using binary64_not_NaN [of "seconds * fps p"] by simp
  qed
  have f: "skip_frames 100 (p\<lparr>current_frame := 5, total_frames := 10\<rparr>)
       = (4, p\<lparr>current_frame := 9, total_frames := 10\<rparr>)"
    by (simp add: skip_frames_def Let_def)
  have g: "int_of_float (fl_mul (Finite (- 5)) (Finite 25)) = Inr (- 125)"
    by (simp add: binary64_neg_numeral py_int_def)
  have h: "skip_time (Finite (- 5)) (p\<lparr>current_frame := 10, fps := 25\<rparr>)
       = (Inr (- 10), p\<lparr>current_frame := 0, fps := 25\<rparr>)"
    by (simp add: skip_time_def skip_frames_def binary64_neg_numeral py_int_def Let_def)
  have fps: "round_binary64 29.9 = 4208050901824307 / 140737488355328"
    using round_29_9 by simp
  have i: "\<lfloor>30 * round_binary64 29.9\<rfloor> = 896"
    unfolding fps by simp
  have prod: "binary64 (30 * round_binary64 29.9) = Finite 897"
    unfolding fps by (simp add: binary64_def round_30_times_29_9 Let_def)
  have j: "int_of_float (fl_mul (Finite 30) (Finite (round_binary64 29.9))) = Inr 897"
    by (simp add: prod py_int_def)
  have k: "skip_time (Finite 30) (p\<lparr>current_frame := 0, total_frames := 1000, fps := round_binary64 29.9\<rparr>)
       = (Inr 897, p\<lparr>current_frame := 897, total_frames := 1000, fps := round_binary64 29.9\<rparr>)"
    by (simp add: skip_time_def skip_frames_def prod py_int_def Let_def)
  from a b c d e f g h i j k show ?thesis
    by blast
qed

theorem skip_frames_clamps_witness:
  "0 < total_frames ((player_on clip_gop)\<lparr>current_frame := 1\<rparr>)
   \<and> current_frame_in_range ((player_on clip_gop)\<lparr>current_frame := 1\<rparr>)
   \<and> current_frame (snd (skip_frames 100 ((player_on clip_gop)\<lparr>current_frame := 1\<rparr>))) = 2
   \<and> fst (skip_frames 100 ((player_on clip_gop)\<lparr>current_frame := 1\<rparr>)) = 1
   \<and> \<bar>fst (skip_frames 100 ((player_on clip_gop)\<lparr>current_frame := 1\<rparr>))\<bar> \<le> \<bar>100\<bar>
   \<and> skip_time (Finite 3) ((player_on clip_gop)\<lparr>current_frame := 1\<rparr>)
       = (Inr 1, (player_on clip_gop)\<lparr>current_frame := 2\<rparr>)"
proof -
  have h1: "0 < total_frames ((player_on clip_gop)\<lparr>current_frame := 1\<rparr>)"
    by (simp add: sample_simps)
  have h2: "current_frame_in_range ((player_on clip_gop)\<lparr>current_frame := 1\<rparr>)"
    by (simp add: current_frame_in_range_def sample_simps)
  have cf: "current_frame ((player_on clip_gop)\<lparr>current_frame := 1\<rparr>) = 1"
    and tf: "total_frames ((player_on clip_gop)\<lparr>current_frame := 1\<rparr>) = 3"
    and fp: "fps ((player_on clip_gop)\<lparr>current_frame := 1\<rparr>) = 25"
    by (simp_all add: sample_simps)
  have prod: "binary64 (3 * 25) = Finite 75"
    by (simp add: binary64_numeral)
  have skip: "skip_frames 75 ((player_on clip_gop)\<lparr>current_frame := 1\<rparr>)
                = (1, (player_on clip_gop)\<lparr>current_frame := 2\<rparr>)"
    by (simp add: skip_frames_def sample_simps)
  show ?thesis
    using h1 h2 cf tf fp prod skip
      skip_frames_clamps [of "(player_on clip_gop)\<lparr>current_frame := 1\<rparr>" 100 3]
    by simp
qed

text \<open>
  C10. When \<^verbatim>\<open>fps\<close> is 0 and \<^verbatim>\<open>current_frame\<close> is in range, \<^verbatim>\<open>skip_time\<close> returns 0
  and leaves the player as it was, for every real number of seconds: the float product with
  \<^verbatim>\<open>fps\<close> is 0. \<^verbatim>\<open>skip_frames\<close> in the same state still moves: a request that stays
  within the bounds is carried out in full.
\<close>

theorem skip_time_unknown_fps:
  assumes "fps p = 0" and "current_frame_in_range p"
  shows "skip_time (Finite seconds) p = (Inr 0, p)
       \<and> (0 \<le> current_frame p + d \<and> current_frame p + d \<le> total_frames p - 1 \<longrightarrow>
            skip_frames d p = (d, p\<lparr>current_frame := current_frame p + d\<rparr>))"
  using assms
  by (auto simp add: skip_time_def skip_frames_def py_int_def current_frame_in_range_def
        binary64_zero Let_def split: if_splits)

theorem skip_time_unknown_fps_witness:
  "fps ((player_on clip_gop)\<lparr>fps := 0\<rparr>) = 0
   \<and> current_frame_in_range ((player_on clip_gop)\<lparr>fps := 0\<rparr>)
   \<and> skip_time (Finite 30) ((player_on clip_gop)\<lparr>fps := 0\<rparr>)
       = (Inr 0, (player_on clip_gop)\<lparr>fps := 0\<rparr>)
   \<and> 0 \<le> current_frame ((player_on clip_gop)\<lparr>fps := 0\<rparr>) + 2
   \<and> current_frame ((player_on clip_gop)\<lparr>fps := 0\<rparr>) + 2
        \<le> total_frames ((player_on clip_gop)\<lparr>fps := 0\<rparr>) - 1
   \<and> fst (skip_frames 2 ((player_on clip_gop)\<lparr>fps := 0\<rparr>)) = 2
   \<and> current_frame (snd (skip_frames 2 ((player_on clip_gop)\<lparr>fps := 0\<rparr>))) = 2"
proof -
  have h1: "fps ((player_on clip_gop)\<lparr>fps := 0\<rparr>) = 0"
    by simp
  have h2: "current_frame_in_range ((player_on clip_gop)\<lparr>fps := 0\<rparr>)"
    by (simp add: current_frame_in_range_def sample_simps)
  have cf: "current_frame ((player_on clip_gop)\<lparr>fps := 0\<rparr>) = 0"
    and tf: "total_frames ((player_on clip_gop)\<lparr>fps := 0\<rparr>) = 3"
    by (simp_all add: sample_simps)
  show ?thesis
    using h1 h2 cf tf skip_time_unknown_fps [OF h1 h2, of 30 2]
    by simp
qed

section \<open>Formatting a timestamp\<close>

text \<open>
  The two examples of the specification: 0 and 3661.5 seconds.
\<close>

lemma format_timestamp_examples:
  "format_timestamp (Finite 0) = Inr ''00:00:00.000''
   \<and> format_timestamp (Finite 3661.5) = Inr ''01:01:01.500''"
  by (simp add: format_timestamp_def float_values float_ops format_defs)

text \<open>
  C7, at the float 59.9996, and at frame 8991 of a video with 30000/1001 frames per second,
  whose timestamp is the float 299.9997. Hours and minutes are cut off from the total; the
  remaining seconds, 59.9996 and 59.9997, are below 60 and are then rounded to three
  decimals, which prints \<^verbatim>\<open>60.000\<close>. The seconds component of the result is not below
  60.
\<close>

theorem format_timestamp_seconds_reach_60:
  "format_timestamp (binary64 59.9996) = Inr ''00:00:60.000''
   \<and> get_current_timestamp (p\<lparr>current_frame := 8991, fps := round_binary64 (30000 / 1001)\<rparr>)
       = Inr (binary64 299.9997)
   \<and> format_timestamp (binary64 299.9997) = Inr ''00:04:60.000''"
proof -
  have a: "format_timestamp (binary64 59.9996) = Inr ''00:00:60.000''"
    by (simp add: format_timestamp_def float_values float_ops format_defs)
  have b: "get_current_timestamp (p\<lparr>current_frame := 8991, fps := round_binary64 (30000 / 1001)\<rparr>)
             = Inr (binary64 299.9997)"
    by (simp add: get_current_timestamp_def float_values float_ops)
  have c: "format_timestamp (binary64 299.9997) = Inr ''00:04:60.000''"
    by (simp add: format_timestamp_def float_values float_ops format_defs)
  from a b c show ?thesis
    by blast
qed

section \<open>Annotations\<close>

text \<open>
  C8, at a video outside the home directory. With home directory \<^verbatim>\<open>/home/al\<close>, the video
  \<^verbatim>\<open>/home/alice/v.mp4\<close> is not under the home directory, but its absolute path starts
  with the characters of \<^verbatim>\<open>/home/al\<close>, which is what the method tests. The line written
  holds the relative path \<^verbatim>\<open>../alice/v.mp4\<close> and not the absolute path.
\<close>

theorem save_annotation_prefix_of_other_directory:
  "(case save_annotation init_manager (Some ''/home/alice/v.mp4'')
           ''00:00:00.000'' ''00:00:02.000'' ''note'' sample_env of
      Inl e \<Rightarrow> None
    | Inr (r, env) \<Rightarrow> Some (r, files env ''/home/alice/v_annotations.txt''))
   = Some ((True, Some ''/home/alice/v_annotations.txt'', None),
           Some (''../alice/v.mp4'' @ [CHR 0x09] @ ''00:00:00.000'' @ [CHR 0x09]
                   @ ''00:00:02.000'' @ [CHR 0x09] @ ''note'' @ [CHR 0x0A]))"
  by code_simp

text \<open>
  C9. \<^verbatim>\<open>add_to_history\<close> appends the text at the end when it is not empty and not yet in
  the history, and changes nothing otherwise: the entries already present keep their
  places, no entry is repeated, adding the same text a second time changes nothing, and
  adding the empty text changes nothing.
\<close>

theorem add_to_history_idempotent:
  "add_to_history t (add_to_history t m) = add_to_history t m
   \<and> add_to_history [] m = m
   \<and> annotation_history (add_to_history ''x'' (add_to_history ''x'' init_manager)) = [''x'']
   \<and> annotation_history (add_to_history t m) =
       (if t \<noteq> [] \<and> t \<notin> set (annotation_history m)
        then annotation_history m @ [t] else annotation_history m)
   \<and> take (length (annotation_history m)) (annotation_history (add_to_history t m))
       = annotation_history m
   \<and> (distinct (annotation_history m) \<longrightarrow> distinct (annotation_history (add_to_history t m)))"
  by (simp add: add_to_history_def init_manager_def)

theorem add_to_history_idempotent_witness:
  "distinct (annotation_history (add_to_history ''a'' init_manager))
   \<and> annotation_history
        (add_to_history ''b'' (add_to_history ''b'' (add_to_history ''a'' init_manager)))
       = [''a'', ''b'']
   \<and> annotation_history (add_to_history ''a'' (add_to_history ''b'' (add_to_history ''a'' init_manager)))
       = [''a'', ''b'']
   \<and> distinct (annotation_history (add_to_history ''b'' (add_to_history ''a'' init_manager)))"
proof -
  have h: "distinct (annotation_history (add_to_history ''a'' init_manager))"
    by (simp add: add_to_history_def init_manager_def)
  have v: "annotation_history (add_to_history ''b'' (add_to_history ''a'' init_manager))
             = [''a'', ''b'']"
    by (simp add: add_to_history_def init_manager_def)
  have w: "annotation_history (add_to_history ''a'' (add_to_history ''b'' (add_to_history ''a'' init_manager)))
             = [''a'', ''b'']"
    by (simp add: add_to_history_def init_manager_def)
  show ?thesis
    using h v w add_to_history_idempotent [of "''b''" "add_to_history ''a'' init_manager"]
    by simp
qed

end
